theory Spec2Isabelle
  imports Complex_Main "HOL-Library.Sublist" "HOL-Library.Multiset"
begin

section \<open>Python values, dictionaries and strings\<close>

text \<open>
  The conversion script works on Python dictionaries from string keys to values of type
  \<open>Any\<close>. A dictionary keeps its insertion order, so it is an association list whose keys
  are pairwise distinct. A value is either a tensor, which the script never looks into
  (the type parameter \<open>'t\<close>), or a nested dictionary.
\<close>

type_synonym 'v pydict = "(string \<times> 'v) list"

datatype 't pyval = Tensor 't | Mapping "(string \<times> 't pyval) list"

datatype error =
    KeyError string
  | IndexError
  | AttributeError
  | TypeError
  | UnboundLocalError string

text \<open>\<open>k in d.keys()\<close>.\<close>

definition dict_contains :: "string \<Rightarrow> 'v pydict \<Rightarrow> bool" where
  "dict_contains k d = (k \<in> set (map fst d))"

text \<open>\<open>d.pop(k)\<close>: the value stored under \<open>k\<close> and the dictionary without the entry, or a
  KeyError when the key is absent.\<close>

primrec dict_remove :: "string \<Rightarrow> 'v pydict \<Rightarrow> 'v pydict" where
  "dict_remove k [] = []"
| "dict_remove k (p # ps) = (if fst p = k then ps else p # dict_remove k ps)"

definition dict_pop :: "string \<Rightarrow> 'v pydict \<Rightarrow> error + ('v \<times> 'v pydict)" where
  "dict_pop k d = (case map_of d k of
                     None \<Rightarrow> Inl (KeyError k)
                   | Some v \<Rightarrow> Inr (v, dict_remove k d))"

text \<open>\<open>d[k] = v\<close>: an existing key keeps its position and takes the new value, a new key
  goes to the end.\<close>

primrec dict_setitem :: "string \<Rightarrow> 'v \<Rightarrow> 'v pydict \<Rightarrow> 'v pydict" where
  "dict_setitem k v [] = [(k, v)]"
| "dict_setitem k v (p # ps) = (if fst p = k then (k, v) # ps else p # dict_setitem k v ps)"

text \<open>\<open>x[k]\<close> on a value of type \<open>Any\<close>: a dictionary raises KeyError on a missing key, a
  tensor does not take a string index.\<close>

fun getitem :: "'t pyval \<Rightarrow> string \<Rightarrow> error + 't pyval" where
  "getitem (Mapping d) k = (case map_of d k of None \<Rightarrow> Inl (KeyError k) | Some v \<Rightarrow> Inr v)"
| "getitem (Tensor t) k = Inl IndexError"

text \<open>\<open>sub in s\<close> on strings.\<close>

fun str_contains :: "string \<Rightarrow> string \<Rightarrow> bool" where
  "str_contains sub [] = (sub = [])"
| "str_contains sub (c # cs) = (prefix sub (c # cs) \<or> str_contains sub cs)"

text \<open>\<open>s.replace(old, new)\<close>: every occurrence of \<open>old\<close>, found from the left and not
  overlapping an earlier one, becomes \<open>new\<close>; the text put in is not scanned again. An empty
  \<open>old\<close> matches before every character and at the end.\<close>

fun replace_scan :: "string \<Rightarrow> string \<Rightarrow> string \<Rightarrow> string" where
  "replace_scan [] old new = []"
| "replace_scan (c # cs) old new =
     (if prefix old (c # cs) then new @ replace_scan (drop (length old - 1) cs) old new
      else c # replace_scan cs old new)"

definition str_replace :: "string \<Rightarrow> string \<Rightarrow> string \<Rightarrow> string" where
  "str_replace s old new =
     (if old = [] then new @ concat (map (\<lambda>c. c # new) s) else replace_scan s old new)"

section \<open>scripts/convert\_dcae\_to\_diffusers.py\<close>

text \<open>The in-place helpers \<open>remove_keys_\<close>, \<open>remap_qkv_\<close> and \<open>update_state_dict_\<close> of the
  script take the dictionary and return it changed; a prime stands for the trailing
  underscore of their names.\<close>

definition remove_keys' :: "string \<Rightarrow> 'v pydict \<Rightarrow> error + 'v pydict" where
  "remove_keys' key state_dict =
     (case dict_pop key state_dict of Inl e \<Rightarrow> Inl e | Inr (v, d) \<Rightarrow> Inr d)"

definition remap_qkv' :: "string \<Rightarrow> 'v pydict \<Rightarrow> error + 'v pydict" where
  "remap_qkv' key state_dict =
     (case dict_pop key state_dict of
        Inl e \<Rightarrow> Inl e
      | Inr (v, d) \<Rightarrow> Inr (dict_setitem (str_replace key ''qkv.conv'' ''to_qkv'') v d))"

definition VAE_KEYS_RENAME_DICT :: "(string \<times> string) list" where
  "VAE_KEYS_RENAME_DICT =
     [(''main.'', ''''),
      (''op_list.'', ''''),
      (''context_module'', ''attn''),
      (''local_module'', ''conv_out''),
      (''aggreg.0.0'', ''to_qkv_multiscale.0.proj_in''),
      (''aggreg.0.1'', ''to_qkv_multiscale.0.proj_out''),
      (''norm.'', ''norm.norm.''),
      (''depth_conv.conv'', ''conv_depth''),
      (''inverted_conv.conv'', ''conv_inverted''),
      (''point_conv.conv'', ''conv_point''),
      (''point_conv.norm'', ''norm''),
      (''conv.conv.'', ''conv.''),
      (''conv1.conv'', ''conv1''),
      (''conv2.conv'', ''conv2''),
      (''conv2.norm'', ''norm''),
      (''proj.conv'', ''proj_out''),
      (''proj.norm'', ''norm_out''),
      (''encoder.project_in.conv'', ''encoder.conv_in''),
      (''encoder.project_out.0.conv'', ''encoder.conv_out''),
      (''decoder.project_in.conv'', ''decoder.conv_in''),
      (''decoder.project_out.0'', ''decoder.norm_out.norm''),
      (''decoder.project_out.2.conv'', ''decoder.conv_out'')]"

definition VAE_SPECIAL_KEYS_REMAP ::
    "(string \<times> (string \<Rightarrow> 'v pydict \<Rightarrow> error + 'v pydict)) list" where
  "VAE_SPECIAL_KEYS_REMAP = [(''qkv.conv.weight'', remap_qkv')]"

text \<open>The three tests look at \<open>saved_dict\<close>; the three subscripts are taken on
  \<open>state_dict\<close>.\<close>

definition get_state_dict :: "'t pyval pydict \<Rightarrow> error + 't pyval" where
  "get_state_dict saved_dict =
     (let state_dict = Mapping saved_dict in
      (case (if dict_contains ''model'' saved_dict then getitem state_dict ''model''
             else Inr state_dict) of
         Inl e \<Rightarrow> Inl e
       | Inr state_dict \<Rightarrow>
           (case (if dict_contains ''module'' saved_dict then getitem state_dict ''module''
                  else Inr state_dict) of
              Inl e \<Rightarrow> Inl e
            | Inr state_dict \<Rightarrow>
                (if dict_contains ''state_dict'' saved_dict
                 then getitem state_dict ''state_dict''
                 else Inr state_dict))))"

definition update_state_dict' :: "'v pydict \<Rightarrow> string \<Rightarrow> string \<Rightarrow> error + 'v pydict" where
  "update_state_dict' state_dict old_key new_key =
     (case dict_pop old_key state_dict of
        Inl e \<Rightarrow> Inl e
      | Inr (v, d) \<Rightarrow> Inr (dict_setitem new_key v d))"

text \<open>The inner loop of the rename pass of \<open>convert_vae\<close>: the rules are applied to the
  key one after the other, each to the result of the one before.\<close>

fun apply_renames :: "(string \<times> string) list \<Rightarrow> string \<Rightarrow> string" where
  "apply_renames [] new_key = new_key"
| "apply_renames ((replace_key, rename_key) # rules) new_key =
     apply_renames rules (str_replace new_key replace_key rename_key)"

definition renamed :: "string \<Rightarrow> string" where
  "renamed key = apply_renames VAE_KEYS_RENAME_DICT key"

text \<open>The outer loop of the rename pass, over the snapshot \<open>list(state_dict.keys())\<close>.\<close>

fun rename_loop :: "string list \<Rightarrow> 'v pydict \<Rightarrow> error + 'v pydict" where
  "rename_loop [] state_dict = Inr state_dict"
| "rename_loop (key # keys) state_dict =
     (case update_state_dict' state_dict key (renamed key) of
        Inl e \<Rightarrow> Inl e
      | Inr d \<Rightarrow> rename_loop keys d)"

definition rename_pass :: "'v pydict \<Rightarrow> error + 'v pydict" where
  "rename_pass state_dict = rename_loop (map fst state_dict) state_dict"

text \<open>The special-key pass: for each key of the snapshot, every handler whose trigger
  occurs in the key is called on the key.\<close>

fun run_handlers ::
    "(string \<times> (string \<Rightarrow> 'v pydict \<Rightarrow> error + 'v pydict)) list \<Rightarrow> string \<Rightarrow> 'v pydict
      \<Rightarrow> error + 'v pydict" where
  "run_handlers [] key state_dict = Inr state_dict"
| "run_handlers ((special_key, handler_fn_inplace) # hs) key state_dict =
     (if \<not> str_contains special_key key then run_handlers hs key state_dict
      else case handler_fn_inplace key state_dict of
             Inl e \<Rightarrow> Inl e
           | Inr d \<Rightarrow> run_handlers hs key d)"

fun special_loop :: "string list \<Rightarrow> 'v pydict \<Rightarrow> error + 'v pydict" where
  "special_loop [] state_dict = Inr state_dict"
| "special_loop (key # keys) state_dict =
     (case run_handlers VAE_SPECIAL_KEYS_REMAP key state_dict of
        Inl e \<Rightarrow> Inl e
      | Inr d \<Rightarrow> special_loop keys d)"

definition special_pass :: "'v pydict \<Rightarrow> error + 'v pydict" where
  "special_pass state_dict = special_loop (map fst state_dict) state_dict"

text \<open>The two passes of \<open>convert_vae\<close> on the unwrapped checkpoint; the model they are
  loaded into afterwards is built by the library.\<close>

definition convert_vae_keys :: "'v pydict \<Rightarrow> error + 'v pydict" where
  "convert_vae_keys original_state_dict =
     (case rename_pass original_state_dict of
        Inl e \<Rightarrow> Inl e
      | Inr d \<Rightarrow> special_pass d)"

text \<open>Line 75 and lines 107 to 117 of \<open>convert_vae\<close>: the loaded file is unwrapped, and the
  two passes run on the result, whose \<open>keys()\<close> a tensor does not have.\<close>

definition convert_vae_state :: "'t pyval pydict \<Rightarrow> error + 't pyval pydict" where
  "convert_vae_state loaded =
     (case get_state_dict loaded of
        Inl e \<Rightarrow> Inl e
      | Inr (Tensor t) \<Rightarrow> Inl AttributeError
      | Inr (Mapping original_state_dict) \<Rightarrow> convert_vae_keys original_state_dict)"

text \<open>The key that the special-key pass gives an entry: \<open>remap_qkv_\<close> is called on the keys
  in which \<open>qkv.conv.weight\<close> occurs, the other keys stay. \<open>final_key\<close> is the key of an entry
  after both passes.\<close>

definition is_qkv :: "string \<Rightarrow> bool" where
  "is_qkv key = str_contains ''qkv.conv.weight'' key"

definition qkv_key :: "string \<Rightarrow> string" where
  "qkv_key key = (if is_qkv key then str_replace key ''qkv.conv'' ''to_qkv'' else key)"

definition final_key :: "string \<Rightarrow> string" where
  "final_key key = qkv_key (renamed key)"

text \<open>A pass visits the keys in order, and the entry of a visited key is stored again under
  its new name \<open>f k\<close>. \<open>fresh_later f ks\<close> says that no new name is a key that the pass has
  yet to visit.\<close>

fun fresh_later :: "(string \<Rightarrow> string) \<Rightarrow> string list \<Rightarrow> bool" where
  "fresh_later f [] = True"
| "fresh_later f (k # ks) = (f k \<notin> set ks \<and> fresh_later f ks)"


subsection \<open>\<open>get_vae_config\<close>\<close>

text \<open>The values of a configuration dictionary: numbers, strings, tuples and lists.\<close>

datatype cfg = CInt int | CFloat real | CStr string | CTuple "cfg list" | CList "cfg list"

text \<open>The function assigns \<open>config\<close> in the branches of an \<open>if\<close>/\<open>elif\<close> chain that has no
  \<open>else\<close>, and returns it: with no branch taken the name \<open>config\<close> is unbound at the
  \<open>return\<close>.\<close>

definition get_vae_config :: "string \<Rightarrow> error + cfg pydict" where
  "get_vae_config name =
     (if name \<in> set [''dc-ae-f32c32-sana-1.0''] then
        Inr [(''latent_channels'', CInt 32),
             (''encoder_block_types'', CTuple (map CStr
                [''ResBlock'', ''ResBlock'', ''ResBlock'',
                 ''EViTS5_GLU'', ''EViTS5_GLU'', ''EViTS5_GLU''])),
             (''decoder_block_types'', CTuple (map CStr
                [''ResBlock'', ''ResBlock'', ''ResBlock'',
                 ''EViTS5_GLU'', ''EViTS5_GLU'', ''EViTS5_GLU''])),
             (''block_out_channels'', CTuple (map CInt [128, 256, 512, 512, 1024, 1024])),
             (''encoder_qkv_multiscales'', CTuple
                [CTuple [], CTuple [], CTuple [],
                 CTuple [CInt 5], CTuple [CInt 5], CTuple [CInt 5]]),
             (''decoder_qkv_multiscales'', CTuple
                [CTuple [], CTuple [], CTuple [],
                 CTuple [CInt 5], CTuple [CInt 5], CTuple [CInt 5]]),
             (''encoder_layers_per_block'', CTuple (map CInt [2, 2, 2, 3, 3, 3])),
             (''decoder_layers_per_block'', CList (map CInt [3, 3, 3, 3, 3, 3])),
             (''downsample_block_type'', CStr ''Conv''),
             (''upsample_block_type'', CStr ''interpolate''),
             (''scaling_factor'', CFloat (41407 / 100000))]
      else if name \<in> set [''dc-ae-f32c32-in-1.0'', ''dc-ae-f32c32-mix-1.0''] then
        Inr [(''latent_channels'', CInt 32),
             (''encoder_block_types'', CList (map CStr
                [''ResBlock'', ''ResBlock'', ''ResBlock'',
                 ''EfficientViTBlock'', ''EfficientViTBlock'', ''EfficientViTBlock''])),
             (''decoder_block_types'', CList (map CStr
                [''ResBlock'', ''ResBlock'', ''ResBlock'',
                 ''EfficientViTBlock'', ''EfficientViTBlock'', ''EfficientViTBlock''])),
             (''block_out_channels'', CList (map CInt [128, 256, 512, 512, 1024, 1024])),
             (''encoder_layers_per_block'', CList (map CInt [0, 4, 8, 2, 2, 2])),
             (''decoder_layers_per_block'', CList (map CInt [0, 5, 10, 2, 2, 2])),
             (''encoder_qkv_multiscales'', CTuple
                [CTuple [], CTuple [], CTuple [], CTuple [], CTuple [], CTuple []]),
             (''decoder_qkv_multiscales'', CTuple
                [CTuple [], CTuple [], CTuple [], CTuple [], CTuple [], CTuple []]),
             (''decoder_norm_types'', CList (map CStr
                [''batch_norm'', ''batch_norm'', ''batch_norm'',
                 ''rms_norm'', ''rms_norm'', ''rms_norm''])),
             (''decoder_act_fns'', CList (map CStr
                [''relu'', ''relu'', ''relu'', ''silu'', ''silu'', ''silu'']))]
      else if name \<in> set [''dc-ae-f128c512-in-1.0'', ''dc-ae-f128c512-mix-1.0''] then
        Inr [(''latent_channels'', CInt 512),
             (''encoder_block_types'', CList (map CStr
                [''ResBlock'', ''ResBlock'', ''ResBlock'',
                 ''EfficientViTBlock'', ''EfficientViTBlock'', ''EfficientViTBlock'',
                 ''EfficientViTBlock'', ''EfficientViTBlock''])),
             (''decoder_block_types'', CList (map CStr
                [''ResBlock'', ''ResBlock'', ''ResBlock'',
                 ''EfficientViTBlock'', ''EfficientViTBlock'', ''EfficientViTBlock'',
                 ''EfficientViTBlock'', ''EfficientViTBlock''])),
             (''block_out_channels'', CList (map CInt
                [128, 256, 512, 512, 1024, 1024, 2048, 2048])),
             (''encoder_layers_per_block'', CList (map CInt [0, 4, 8, 2, 2, 2, 2, 2])),
             (''decoder_layers_per_block'', CList (map CInt [0, 5, 10, 2, 2, 2, 2, 2])),
             (''encoder_qkv_multiscales'', CTuple
                [CTuple [], CTuple [], CTuple [], CTuple [], CTuple [], CTuple [],
                 CTuple [], CTuple []]),
             (''decoder_qkv_multiscales'', CTuple
                [CTuple [], CTuple [], CTuple [], CTuple [], CTuple [], CTuple [],
                 CTuple [], CTuple []]),
             (''decoder_norm_types'', CList (map CStr
                [''batch_norm'', ''batch_norm'', ''batch_norm'',
                 ''rms_norm'', ''rms_norm'', ''rms_norm'', ''rms_norm'', ''rms_norm''])),
             (''decoder_act_fns'', CList (map CStr
                [''relu'', ''relu'', ''relu'', ''silu'', ''silu'', ''silu'', ''silu'', ''silu'']))]
      else if name \<in> set [''dc-ae-f64c128-in-1.0'', ''dc-ae-f64c128-mix-1.0''] then
        Inr [(''latent_channels'', CInt 128),
             (''encoder_block_types'', CList (map CStr
                [''ResBlock'', ''ResBlock'', ''ResBlock'',
                 ''EfficientViTBlock'', ''EfficientViTBlock'', ''EfficientViTBlock'',
                 ''EfficientViTBlock''])),
             (''decoder_block_types'', CList (map CStr
                [''ResBlock'', ''ResBlock'', ''ResBlock'',
                 ''EfficientViTBlock'', ''EfficientViTBlock'', ''EfficientViTBlock'',
                 ''EfficientViTBlock''])),
             (''block_out_channels'', CList (map CInt [128, 256, 512, 512, 1024, 1024, 2048])),
             (''encoder_layers_per_block'', CList (map CInt [0, 4, 8, 2, 2, 2, 2])),
             (''decoder_layers_per_block'', CList (map CInt [0, 5, 10, 2, 2, 2, 2])),
             (''encoder_qkv_multiscales'', CTuple
                [CTuple [], CTuple [], CTuple [], CTuple [], CTuple [], CTuple [], CTuple []]),
             (''decoder_qkv_multiscales'', CTuple
                [CTuple [], CTuple [], CTuple [], CTuple [], CTuple [], CTuple [], CTuple []]),
             (''decoder_norm_types'', CList (map CStr
                [''batch_norm'', ''batch_norm'', ''batch_norm'',
                 ''rms_norm'', ''rms_norm'', ''rms_norm'', ''rms_norm''])),
             (''decoder_act_fns'', CList (map CStr
                [''relu'', ''relu'', ''relu'', ''silu'', ''silu'', ''silu'', ''silu'']))]
      else Inl (UnboundLocalError ''config''))"

text \<open>The preset names, as the specification lists them.\<close>

definition vae_presets :: "string list" where
  "vae_presets =
     [''dc-ae-f32c32-sana-1.0'', ''dc-ae-f32c32-in-1.0'', ''dc-ae-f32c32-mix-1.0'',
      ''dc-ae-f128c512-in-1.0'', ''dc-ae-f128c512-mix-1.0'',
      ''dc-ae-f64c128-in-1.0'', ''dc-ae-f64c128-mix-1.0'']"

section \<open>src/diffusers/models/transformers/sana\_transformer.py\<close>

subsection \<open>Floating-point numbers\<close>

text \<open>
  The floating-point types a model can have. A number of such a type has \<open>precision\<close>
  binary digits, and its binary exponent lies between \<open>e_min\<close> and \<open>e_max\<close>; below
  \<open>e_min\<close> the spacing of the numbers stays that of \<open>e_min\<close>.
\<close>

datatype dtype = Float64 | Float32 | Float16 | BFloat16

fun precision :: "dtype \<Rightarrow> nat" where
  "precision Float64 = 53"
| "precision Float32 = 24"
| "precision Float16 = 11"
| "precision BFloat16 = 8"

fun e_min :: "dtype \<Rightarrow> int" where
  "e_min Float64 = - 1022"
| "e_min Float32 = - 126"
| "e_min Float16 = - 14"
| "e_min BFloat16 = - 126"

fun e_max :: "dtype \<Rightarrow> int" where
  "e_max Float64 = 1023"
| "e_max Float32 = 127"
| "e_max Float16 = 15"
| "e_max BFloat16 = 127"

text \<open>An element of a tensor: a finite number, an infinity, or not a number. The two
  zeros of the format, which compare equal, are the one number 0.\<close>

datatype fval = Fin real | PosInf | NegInf | NaN

text \<open>The number of binary digits of a natural number, and the binary exponent of a real
  number other than 0: \<open>2 ^ ilog2 x \<le> \<bar>x\<bar> < 2 ^ (ilog2 x + 1)\<close>.\<close>

fun bit_length :: "nat \<Rightarrow> nat" where
  "bit_length n = (if n = 0 then 0 else Suc (bit_length (n div 2)))"

declare bit_length.simps [simp del]

definition ilog2 :: "real \<Rightarrow> int" where
  "ilog2 x =
     (if 1 \<le> \<bar>x\<bar> then int (bit_length (nat \<lfloor>\<bar>x\<bar>\<rfloor>)) - 1
      else - int (bit_length (nat (\<lceil>1 / \<bar>x\<bar>\<rceil> - 1))))"

text \<open>Rounding to the nearest integer, and to the even one of two that are equally near.\<close>

definition round_half_even :: "real \<Rightarrow> int" where
  "round_half_even x =
     (let f = \<lfloor>x\<rfloor>; d = x - of_int f
      in if d < 1 / 2 then f else if 1 / 2 < d then f + 1 else if even f then f else f + 1)"

text \<open>Rounding a real number to the type: to the nearest multiple of the spacing at its
  exponent, and to an infinity when that is beyond the largest number of the type.\<close>

definition round_float :: "dtype \<Rightarrow> real \<Rightarrow> fval" where
  "round_float dt x =
     (if x = 0 then Fin 0
      else let e = max (ilog2 x) (e_min dt);
               ulp = 2 powi (e - int (precision dt) + 1);
               r = of_int (round_half_even (x / ulp)) * ulp
           in if 2 powi (e_max dt + 1) \<le> \<bar>r\<bar> then (if r < 0 then NegInf else PosInf)
              else Fin r)"

text \<open>The three operations on an element that the conversion of a mask uses: the cast
  \<open>.to(dtype)\<close>, \<open>c - x\<close> and \<open>x * c\<close> for a Python number \<open>c\<close>. Each gives the exact result
  rounded once to the type of the tensor.\<close>

fun cast :: "dtype \<Rightarrow> fval \<Rightarrow> fval" where
  "cast dt (Fin x) = round_float dt x"
| "cast dt v = v"

fun rsub_elem :: "dtype \<Rightarrow> real \<Rightarrow> fval \<Rightarrow> fval" where
  "rsub_elem dt c (Fin x) = round_float dt (c - x)"
| "rsub_elem dt c PosInf = NegInf"
| "rsub_elem dt c NegInf = PosInf"
| "rsub_elem dt c NaN = NaN"

fun mul_elem :: "dtype \<Rightarrow> fval \<Rightarrow> real \<Rightarrow> fval" where
  "mul_elem dt (Fin x) c = round_float dt (x * c)"
| "mul_elem dt PosInf c = (if c = 0 then NaN else if c < 0 then NegInf else PosInf)"
| "mul_elem dt NegInf c = (if c = 0 then NaN else if c < 0 then PosInf else NegInf)"
| "mul_elem dt NaN c = NaN"

subsection \<open>The attention masks of \<open>SanaTransformer2DModel.forward\<close>\<close>

text \<open>A mask is a tensor given by its shape and its elements in row-major order.\<close>

record 'a tensor =
  shape :: "nat list"
  elems :: "'a list"

definition ndim :: "'a tensor \<Rightarrow> nat" where
  "ndim t = length (shape t)"

text \<open>\<open>t.unsqueeze(pos)\<close> for a position counted from the front: a dimension of size one is
  put in at \<open>pos\<close>, which may be at most \<open>t.ndim\<close>.\<close>

definition unsqueeze :: "nat \<Rightarrow> 'a tensor \<Rightarrow> error + 'a tensor" where
  "unsqueeze pos t =
     (if pos \<le> ndim t then Inr (t\<lparr>shape := take pos (shape t) @ [1] @ drop pos (shape t)\<rparr>)
      else Inl IndexError)"

definition to_dtype :: "dtype \<Rightarrow> fval tensor \<Rightarrow> fval tensor" where
  "to_dtype dt t = t\<lparr>elems := map (cast dt) (elems t)\<rparr>"

definition rsub_scalar :: "dtype \<Rightarrow> real \<Rightarrow> fval tensor \<Rightarrow> fval tensor" where
  "rsub_scalar dt c t = t\<lparr>elems := map (rsub_elem dt c) (elems t)\<rparr>"

definition mul_scalar :: "dtype \<Rightarrow> fval tensor \<Rightarrow> real \<Rightarrow> fval tensor" where
  "mul_scalar dt t c = t\<lparr>elems := map (\<lambda>v. mul_elem dt v c) (elems t)\<rparr>"

text \<open>The block at the head of \<open>forward\<close>, which the function has once for
  \<open>attention_mask\<close> and once, word for word, for \<open>encoder_attention_mask\<close>; \<open>dtype\<close> is
  \<open>hidden_states.dtype\<close>.
  \<^verbatim>\<open>if mask is not None and mask.ndim == 2:\<close>
  \<^verbatim>\<open>    mask = (1 - mask.to(hidden_states.dtype)) * -10000.0\<close>
  \<^verbatim>\<open>    mask = mask.unsqueeze(1)\<close>\<close>

definition mask_to_bias :: "dtype \<Rightarrow> fval tensor option \<Rightarrow> error + fval tensor option" where
  "mask_to_bias dtype attention_mask =
     (case attention_mask of
        None \<Rightarrow> Inr None
      | Some m \<Rightarrow>
          if ndim m = 2 then
            (case unsqueeze 1
                    (mul_scalar dtype (rsub_scalar dtype 1 (to_dtype dtype m)) (- 10000)) of
               Inl e \<Rightarrow> Inl e
             | Inr b \<Rightarrow> Inr (Some b))
          else Inr (Some m))"

text \<open>The two masks as \<open>forward\<close> hands them to every transformer block, in the order
  \<open>(attention_mask, encoder_attention_mask)\<close>.\<close>

definition forward_masks ::
    "dtype \<Rightarrow> fval tensor option \<Rightarrow> fval tensor option
      \<Rightarrow> error + (fval tensor option \<times> fval tensor option)" where
  "forward_masks dtype encoder_attention_mask attention_mask =
     (case mask_to_bias dtype attention_mask of
        Inl e \<Rightarrow> Inl e
      | Inr attention_bias \<Rightarrow>
          (case mask_to_bias dtype encoder_attention_mask of
             Inl e \<Rightarrow> Inl e
           | Inr encoder_attention_bias \<Rightarrow> Inr (attention_bias, encoder_attention_bias)))"

subsection \<open>\<open>SanaTransformerBlock.forward\<close>\<close>

text \<open>
  In the block the tensors are functions from indices to real numbers: \<open>hidden_states\<close>
  and the outputs of the modules take a sample, a token and a channel, the six chunks of
  the modulation take a sample and a channel and are spread over the tokens. The shapes
  are taken to fit: \<open>hidden_states\<close> has \<open>channels\<close> channels (the \<open>dim\<close> of \<open>__init__\<close>), the
  table is \<open>6 \<times> channels\<close>, and \<open>timestep\<close> holds \<open>6 * channels\<close> numbers for each sample.
  The modules \<open>norm1\<close>, \<open>attn1\<close>, \<open>norm2\<close>, \<open>attn2\<close> and \<open>ff\<close> come from the library and are
  fields of the block.

  \<open>__init__\<close> sets \<open>norm2\<close> and \<open>attn2\<close> only when a \<open>cross_attention_dim\<close> is given. An
  attribute is therefore either not set, and reading it fails, or it holds a value,
  which \<open>forward\<close> compares with \<open>None\<close>.
\<close>

datatype 'a attr = Unset | Attr "'a option"

type_synonym tensor2 = "nat \<Rightarrow> nat \<Rightarrow> real"

type_synonym tensor3 = "nat \<Rightarrow> nat \<Rightarrow> nat \<Rightarrow> real"

record ('e, 'm) SanaTransformerBlock =
  channels :: nat
  scale_shift_table :: tensor2
  norm1 :: "tensor3 \<Rightarrow> tensor3"
  attn1 :: "tensor3 \<Rightarrow> tensor3"
  norm2 :: "(tensor3 \<Rightarrow> tensor3) attr"
  attn2 :: "(tensor3 \<Rightarrow> 'e \<Rightarrow> 'm \<Rightarrow> tensor3) attr"
  ff :: "tensor3 \<Rightarrow> (nat \<times> nat) option \<Rightarrow> tensor3"

text \<open>Chunk \<open>i\<close> of
  \<^verbatim>\<open>(self.scale_shift_table[None] + timestep.reshape(batch_size, 6, -1)).chunk(6, dim=1)\<close>:
  in order the chunks are \<open>shift_msa\<close>, \<open>scale_msa\<close>, \<open>gate_msa\<close>, \<open>shift_mlp\<close>,
  \<open>scale_mlp\<close>, \<open>gate_mlp\<close>.\<close>

definition modulation :: "('e, 'm) SanaTransformerBlock \<Rightarrow> tensor2 \<Rightarrow> nat \<Rightarrow> tensor2" where
  "modulation self timestep i =
     (\<lambda>b d. scale_shift_table self i d + timestep b (i * channels self + d))"

text \<open>\<open>norm_hidden_states * (1 + scale) + shift\<close> and \<open>hidden_states + gate * output\<close>.\<close>

definition modulate :: "tensor3 \<Rightarrow> tensor2 \<Rightarrow> tensor2 \<Rightarrow> tensor3" where
  "modulate norm_hidden_states scale shift =
     (\<lambda>b n d. norm_hidden_states b n d * (1 + scale b d) + shift b d)"

definition gated_add :: "tensor3 \<Rightarrow> tensor2 \<Rightarrow> tensor3 \<Rightarrow> tensor3" where
  "gated_add hidden_states gate output =
     (\<lambda>b n d. hidden_states b n d + gate b d * output b n d)"

text \<open>Part 2 of \<open>forward\<close>, the self-attention branch, and part 4, the feed-forward branch
  with the module that \<open>self.norm2\<close> holds.\<close>

definition self_attention ::
    "('e, 'm) SanaTransformerBlock \<Rightarrow> tensor3 \<Rightarrow> tensor2 \<Rightarrow> tensor3" where
  "self_attention self hidden_states timestep =
     (let shift_msa = modulation self timestep 0;
          scale_msa = modulation self timestep 1;
          gate_msa = modulation self timestep 2;
          norm_hidden_states = norm1 self hidden_states;
          norm_hidden_states = modulate norm_hidden_states scale_msa shift_msa;
          attn_output = attn1 self norm_hidden_states
      in gated_add hidden_states gate_msa attn_output)"

definition feed_forward ::
    "('e, 'm) SanaTransformerBlock \<Rightarrow> (tensor3 \<Rightarrow> tensor3) \<Rightarrow> tensor3 \<Rightarrow> tensor2
      \<Rightarrow> (nat \<times> nat) option \<Rightarrow> tensor3" where
  "feed_forward self norm2_fn hidden_states timestep HW =
     (let shift_mlp = modulation self timestep 3;
          scale_mlp = modulation self timestep 4;
          gate_mlp = modulation self timestep 5;
          norm_hidden_states = norm2_fn hidden_states;
          norm_hidden_states = modulate norm_hidden_states scale_mlp shift_mlp;
          ff_output = ff self norm_hidden_states HW
      in gated_add hidden_states gate_mlp ff_output)"

text \<open>Part 3 of \<open>forward\<close>, the cross-attention, which has no gate.\<close>

definition cross_attention ::
    "(tensor3 \<Rightarrow> 'e \<Rightarrow> 'm \<Rightarrow> tensor3) option \<Rightarrow> tensor3 \<Rightarrow> 'e \<Rightarrow> 'm \<Rightarrow> tensor3" where
  "cross_attention attn2_value hidden_states encoder_hidden_states encoder_attention_mask =
     (case attn2_value of
        None \<Rightarrow> hidden_states
      | Some attn2_fn \<Rightarrow>
          (let attn_output = attn2_fn hidden_states encoder_hidden_states encoder_attention_mask
           in (\<lambda>b n d. attn_output b n d + hidden_states b n d)))"

definition block_forward ::
    "('e, 'm) SanaTransformerBlock \<Rightarrow> tensor3 \<Rightarrow> 'e \<Rightarrow> 'm \<Rightarrow> tensor2
      \<Rightarrow> (nat \<times> nat) option \<Rightarrow> error + tensor3" where
  "block_forward self hidden_states encoder_hidden_states encoder_attention_mask timestep HW =
     (let hidden_states = self_attention self hidden_states timestep in
      case attn2 self of
        Unset \<Rightarrow> Inl AttributeError
      | Attr attn2_value \<Rightarrow>
          (let hidden_states =
                 cross_attention attn2_value hidden_states encoder_hidden_states
                   encoder_attention_mask
           in case norm2 self of
                Unset \<Rightarrow> Inl AttributeError
              | Attr None \<Rightarrow> Inl TypeError
              | Attr (Some norm2_fn) \<Rightarrow>
                  Inr (feed_forward self norm2_fn hidden_states timestep HW)))"

section \<open>Dictionaries and string replacement\<close>

lemma dict_setitem_fresh: "k \<notin> fst ` set d \<Longrightarrow> dict_setitem k v d = d @ [(k, v)]"
  by (induction d) auto

lemma map_of_dict_setitem: "map_of (dict_setitem k v d) = (map_of d)(k \<mapsto> v)"
  by (induction d) (auto simp: fun_eq_iff)

lemma keys_dict_remove:
  "distinct (map fst d) \<Longrightarrow> map fst (dict_remove k d) = removeAll k (map fst d)"
  by (induction d) auto

lemma map_of_dict_remove:
  "distinct (map fst d) \<Longrightarrow> map_of (dict_remove k d) = (map_of d)(k := None)"
  by (induction d) (auto simp: fun_eq_iff map_of_eq_None_iff)

lemma length_dict_remove:
  "k \<in> set (map fst d) \<Longrightarrow> Suc (length (dict_remove k d)) = length d"
  by (induction d) auto

lemma map_of_keys: "map_of d k = Some v \<Longrightarrow> k \<in> set (map fst d)"
  by (induction d) (auto split: if_splits)

lemma map_of_behind: "k \<notin> fst ` set pre \<Longrightarrow> map_of (pre @ (k, v) # r) k = Some v"
  by (induction pre) auto

lemma dict_remove_behind: "k \<notin> fst ` set pre \<Longrightarrow> dict_remove k (pre @ (k, v) # r) = pre @ r"
  by (induction pre) auto

lemma dict_pop_behind:
  "k \<notin> fst ` set pre \<Longrightarrow> dict_pop k (pre @ (k, v) # r) = Inr (v, pre @ r)"
  by (simp add: dict_pop_def map_of_behind dict_remove_behind del: map_of_append)

text \<open>A pattern that does not occur is not replaced, and an occurrence at the front is
  replaced before the rest of the string is looked at.\<close>

lemma replace_scan_absent: "\<not> str_contains old s \<Longrightarrow> replace_scan s old new = s"
  by (induction s) auto

lemma str_replace_absent: "\<not> str_contains old s \<Longrightarrow> str_replace s old new = s"
  by (cases s) (auto simp: str_replace_def replace_scan_absent)

lemma str_replace_front:
  "old \<noteq> [] \<Longrightarrow> str_replace (old @ s) old new = new @ str_replace s old new"
  by (cases old) (simp_all add: str_replace_def)










section \<open>Unwrapping the loaded checkpoint\<close>

text \<open>
  C1. The claim has each test look at the scope reached so far, so that a checkpoint nested
  as \<open>{"model": {"module": X}}\<close> unwraps to \<open>X\<close>. The script tests the outer dictionary
  \<open>saved_dict\<close> each time and only subscripts the scope reached so far: on this input the
  test for \<open>"module"\<close> looks at the outer dictionary, finds nothing, and the result is the
  dictionary \<open>{"module": X}\<close>. With both keys in the outer dictionary, \<open>"module"\<close> is
  looked up in the value of \<open>"model"\<close>, and the lookup fails when it is not there.
\<close>

theorem get_state_dict_model_module:
  "get_state_dict [(''model'', Mapping [(''module'', X)])] = Inr (Mapping [(''module'', X)])
   \<and> get_state_dict [(''model'', Mapping []), (''module'', Y)] = Inl (KeyError ''module'')"
  by (simp add: get_state_dict_def dict_contains_def)

text \<open>
  C6. A dictionary with none of the keys \<open>"model"\<close>, \<open>"module"\<close>, \<open>"state_dict"\<close> is
  returned as it is. Hence unwrapping is idempotent from there on: when unwrapping any
  loaded dictionary arrives at such a dictionary, unwrapping again gives the same result.
\<close>

theorem get_state_dict_no_wrapper:
  assumes "\<not> dict_contains ''model'' d"
    and "\<not> dict_contains ''module'' d"
    and "\<not> dict_contains ''state_dict'' d"
  shows "get_state_dict d = Inr (Mapping d)
         \<and> (\<forall>saved. get_state_dict saved = Inr (Mapping d)
                \<longrightarrow> get_state_dict d = get_state_dict saved)"
  using assms by (simp add: get_state_dict_def)

theorem get_state_dict_no_wrapper_witness:
  "get_state_dict [(''encoder.project_in.conv.weight'', Tensor (0::nat))]
     = Inr (Mapping [(''encoder.project_in.conv.weight'', Tensor 0)])
   \<and> get_state_dict [(''model'', Mapping [(''encoder.project_in.conv.weight'', Tensor (0::nat))])]
     = Inr (Mapping [(''encoder.project_in.conv.weight'', Tensor 0)])
   \<and> get_state_dict [(''encoder.project_in.conv.weight'', Tensor (0::nat))]
     = get_state_dict [(''model'', Mapping [(''encoder.project_in.conv.weight'', Tensor 0)])]"
proof -
  let ?d = "[(''encoder.project_in.conv.weight'', Tensor (0::nat))]"
  have a: "\<not> dict_contains ''model'' ?d" by (simp add: dict_contains_def)
  have b: "\<not> dict_contains ''module'' ?d" by (simp add: dict_contains_def)
  have c: "\<not> dict_contains ''state_dict'' ?d" by (simp add: dict_contains_def)
  have s: "get_state_dict [(''model'', Mapping ?d)] = Inr (Mapping ?d)"
    by (simp add: get_state_dict_def dict_contains_def)
  from get_state_dict_no_wrapper [OF a b c] s show ?thesis by simp
qed

section \<open>The rename pass\<close>

lemma renamed_project_in:
  "renamed ''encoder.project_in.conv.weight'' = ''encoder.conv_in.weight''"
  by code_simp

lemma renamed_norm_weight: "renamed ''norm.weight'' = ''norm.norm.weight''"
  by code_simp

lemma renamed_norm_norm_weight: "renamed ''norm.norm.weight'' = ''norm.norm.norm.norm.weight''"
  by code_simp

text \<open>
  C3. The checkpoint \<open>{"model": {"encoder.project_in.conv.weight": T}}\<close> unwraps to
  \<open>{"encoder.project_in.conv.weight": T}\<close>, and the rename pass followed by the special-key
  pass gives \<open>{"encoder.conv_in.weight": T}\<close>, with the same \<open>T\<close>.
\<close>

theorem convert_project_in_end_to_end:
  "get_state_dict [(''model'', Mapping [(''encoder.project_in.conv.weight'', T)])]
     = Inr (Mapping [(''encoder.project_in.conv.weight'', T)])
   \<and> rename_pass [(''encoder.project_in.conv.weight'', T)]
     = Inr [(''encoder.conv_in.weight'', T)]
   \<and> special_pass [(''encoder.conv_in.weight'', T)] = Inr [(''encoder.conv_in.weight'', T)]
   \<and> convert_vae_state [(''model'', Mapping [(''encoder.project_in.conv.weight'', T)])]
     = Inr [(''encoder.conv_in.weight'', T)]"
  by (simp add: convert_vae_state_def get_state_dict_def dict_contains_def
      convert_vae_keys_def rename_pass_def update_state_dict'_def dict_pop_def
      renamed_project_in special_pass_def VAE_SPECIAL_KEYS_REMAP_def)

text \<open>
  C5. The rename pass is not idempotent: for the key \<open>norm.weight\<close> a second application
  gives \<open>norm.norm.norm.norm.weight\<close>, not the \<open>norm.norm.weight\<close> of the first, on the key
  and on the dictionary that holds it.
\<close>

theorem rename_not_idempotent:
  "\<exists>key. renamed (renamed key) \<noteq> renamed key
     \<and> (\<exists>d1 d2. rename_pass [(key, v)] = Inr d1 \<and> rename_pass d1 = Inr d2 \<and> d2 \<noteq> d1)"
proof (intro exI conjI)
  show "renamed (renamed ''norm.weight'') \<noteq> renamed ''norm.weight''"
    by (simp add: renamed_norm_weight renamed_norm_norm_weight)
  show "rename_pass [(''norm.weight'', v)] = Inr [(''norm.norm.weight'', v)]"
    by (simp add: rename_pass_def update_state_dict'_def dict_pop_def renamed_norm_weight)
  show "rename_pass [(''norm.norm.weight'', v)] = Inr [(''norm.norm.norm.norm.weight'', v)]"
    by (simp add: rename_pass_def update_state_dict'_def dict_pop_def renamed_norm_norm_weight)
  show "[(''norm.norm.norm.norm.weight'', v)] \<noteq> [(''norm.norm.weight'', v)]"
    by simp
qed

section \<open>The two passes when no new key meets a key in use\<close>

lemma update_state_dict_fresh:
  assumes "k \<notin> fst ` set pre" and "k' \<notin> fst ` set pre" and "k' \<notin> fst ` set r"
  shows "update_state_dict' (pre @ (k, v) # r) k k' = Inr (pre @ r @ [(k', v)])"
proof -
  have "k' \<notin> fst ` set (pre @ r)" using assms by auto
  then have "dict_setitem k' v (pre @ r) = (pre @ r) @ [(k', v)]" by (rule dict_setitem_fresh)
  then show ?thesis using assms(1) by (simp add: update_state_dict'_def dict_pop_behind)
qed

lemma remap_qkv_fresh:
  assumes "k \<notin> fst ` set pre" and "str_replace k ''qkv.conv'' ''to_qkv'' \<notin> fst ` set pre"
    and "str_replace k ''qkv.conv'' ''to_qkv'' \<notin> fst ` set r"
  shows "remap_qkv' k (pre @ (k, v) # r)
           = Inr (pre @ r @ [(str_replace k ''qkv.conv'' ''to_qkv'', v)])"
proof -
  let ?n = "str_replace k ''qkv.conv'' ''to_qkv''"
  have "?n \<notin> fst ` set (pre @ r)" using assms by auto
  then have "dict_setitem ?n v (pre @ r) = (pre @ r) @ [(?n, v)]" by (rule dict_setitem_fresh)
  then show ?thesis using assms(1) by (simp add: remap_qkv'_def dict_pop_behind)
qed

text \<open>The rename pass, part of the way through: \<open>r\<close> holds the entries still to be visited,
  \<open>acc\<close> the entries already stored under their new keys.\<close>

lemma rename_loop_fresh:
  assumes "distinct (map renamed (map fst r))"
    and "fresh_later renamed (map fst r)"
    and "\<forall>k \<in> fst ` set r. renamed k \<notin> fst ` set acc"
  shows "rename_loop (map fst r) (r @ acc) = Inr (acc @ map (\<lambda>(k, v). (renamed k, v)) r)"
  using assms
proof (induction r arbitrary: acc)
  case Nil
  then show ?case by simp
next
  case (Cons p r)
  obtain k v where p: "p = (k, v)" by (cases p)
  have fresh: "renamed k \<notin> fst ` set (r @ acc)"
    using Cons.prems by (auto simp: p)
  have step: "update_state_dict' ((k, v) # r @ acc) k (renamed k)
                = Inr ((r @ acc) @ [(renamed k, v)])"
    using update_state_dict_fresh [of k "[]" "renamed k" "r @ acc" v] fresh by simp
  have d: "distinct (map renamed (map fst r))" using Cons.prems(1) by simp
  have f: "fresh_later renamed (map fst r)" using Cons.prems(2) by simp
  have a: "\<forall>k' \<in> fst ` set r. renamed k' \<notin> fst ` set (acc @ [(renamed k, v)])"
  proof
    fix k' assume k': "k' \<in> fst ` set r"
    then have "renamed k' \<in> set (map renamed (map fst r))" by auto
    moreover have "renamed k \<notin> set (map renamed (map fst r))"
      using Cons.prems(1) by (simp add: p)
    ultimately have "renamed k' \<noteq> renamed k" by metis
    moreover have "renamed k' \<notin> fst ` set acc" using Cons.prems(3) k' by (auto simp: p)
    ultimately show "renamed k' \<notin> fst ` set (acc @ [(renamed k, v)])" by simp
  qed
  have "rename_loop (map fst r) (r @ (acc @ [(renamed k, v)]))
          = Inr ((acc @ [(renamed k, v)]) @ map (\<lambda>(k, v). (renamed k, v)) r)"
    by (rule Cons.IH [OF d f a])
  then show ?case using step by (simp add: p)
qed

lemma rename_pass_fresh:
  assumes "distinct (map (renamed \<circ> fst) d)" and "fresh_later renamed (map fst d)"
  shows "rename_pass d = Inr (map (\<lambda>(k, v). (renamed k, v)) d)"
  using rename_loop_fresh [of d "[]"] assms by (simp add: rename_pass_def)

lemma run_handlers_qkv:
  "run_handlers VAE_SPECIAL_KEYS_REMAP key d = (if is_qkv key then remap_qkv' key d else Inr d)"
  by (simp add: VAE_SPECIAL_KEYS_REMAP_def is_qkv_def split: sum.splits)

text \<open>The special-key pass, part of the way through: \<open>pre\<close> holds the visited entries that
  stayed, \<open>r\<close> the entries still to be visited, \<open>acc\<close> the entries that were stored again.\<close>

lemma special_loop_fresh:
  assumes "distinct (map fst pre @ map fst r)"
    and "fresh_later qkv_key (map fst r)"
    and "distinct (map qkv_key (map fst r))"
    and "\<forall>k \<in> fst ` set r. is_qkv k \<longrightarrow> qkv_key k \<notin> fst ` set pre \<union> fst ` set acc"
  shows "special_loop (map fst r) (pre @ r @ acc)
           = Inr (pre @ filter (\<lambda>(k, v). \<not> is_qkv k) r @ acc
                  @ map (\<lambda>(k, v). (qkv_key k, v)) (filter (\<lambda>(k, v). is_qkv k) r))"
  using assms
proof (induction r arbitrary: pre acc)
  case Nil
  then show ?case by simp
next
  case (Cons p r)
  obtain k v where p: "p = (k, v)" by (cases p)
  have f: "fresh_later qkv_key (map fst r)" using Cons.prems(2) by simp
  have d: "distinct (map qkv_key (map fst r))" using Cons.prems(3) by simp
  have ne: "qkv_key k' \<noteq> qkv_key k" if "k' \<in> fst ` set r" for k'
  proof -
    have "qkv_key k' \<in> set (map qkv_key (map fst r))" using that by auto
    moreover have "qkv_key k \<notin> set (map qkv_key (map fst r))"
      using Cons.prems(3) by (simp add: p)
    ultimately show ?thesis by metis
  qed
  show ?case
  proof (cases "is_qkv k")
    case False
    then have kk: "qkv_key k = k" by (simp add: qkv_key_def)
    have a1: "distinct (map fst (pre @ [(k, v)]) @ map fst r)"
      using Cons.prems(1) by (simp add: p)
    have a4: "\<forall>k' \<in> fst ` set r. is_qkv k' \<longrightarrow>
                qkv_key k' \<notin> fst ` set (pre @ [(k, v)]) \<union> fst ` set acc"
    proof (intro ballI impI)
      fix k' assume k': "k' \<in> fst ` set r" and q: "is_qkv k'"
      have "qkv_key k' \<noteq> qkv_key k" using ne [OF k'] .
      moreover have "qkv_key k' \<notin> fst ` set pre \<union> fst ` set acc"
        using Cons.prems(4) k' q by (auto simp: p)
      ultimately show "qkv_key k' \<notin> fst ` set (pre @ [(k, v)]) \<union> fst ` set acc"
        using kk by simp
    qed
    have "special_loop (map fst r) ((pre @ [(k, v)]) @ r @ acc)
            = Inr ((pre @ [(k, v)]) @ filter (\<lambda>(k, v). \<not> is_qkv k) r @ acc
                  @ map (\<lambda>(k, v). (qkv_key k, v)) (filter (\<lambda>(k, v). is_qkv k) r))"
      by (rule Cons.IH [OF a1 f d a4])
    then show ?thesis using False by (simp add: p run_handlers_qkv)
  next
    case True
    then have kk: "qkv_key k = str_replace k ''qkv.conv'' ''to_qkv''" by (simp add: qkv_key_def)
    have n1: "k \<notin> fst ` set pre" using Cons.prems(1) by (auto simp: p)
    have n2: "qkv_key k \<notin> fst ` set pre" using Cons.prems(4) True by (simp add: p)
    have n3: "qkv_key k \<notin> fst ` set (r @ acc)"
      using Cons.prems(2,4) True by (auto simp: p)
    have step: "remap_qkv' k (pre @ (k, v) # r @ acc) = Inr (pre @ (r @ acc) @ [(qkv_key k, v)])"
      using remap_qkv_fresh [OF n1, of "r @ acc" v] n2 n3 by (simp add: kk)
    have a1: "distinct (map fst pre @ map fst r)" using Cons.prems(1) by (simp add: p)
    have a4: "\<forall>k' \<in> fst ` set r. is_qkv k' \<longrightarrow>
                qkv_key k' \<notin> fst ` set pre \<union> fst ` set (acc @ [(qkv_key k, v)])"
    proof (intro ballI impI)
      fix k' assume k': "k' \<in> fst ` set r" and q: "is_qkv k'"
      have "qkv_key k' \<noteq> qkv_key k" using ne [OF k'] .
      moreover have "qkv_key k' \<notin> fst ` set pre \<union> fst ` set acc"
        using Cons.prems(4) k' q by (auto simp: p)
      ultimately show "qkv_key k' \<notin> fst ` set pre \<union> fst ` set (acc @ [(qkv_key k, v)])"
        by simp
    qed
    have "special_loop (map fst r) (pre @ r @ (acc @ [(qkv_key k, v)]))
            = Inr (pre @ filter (\<lambda>(k, v). \<not> is_qkv k) r @ (acc @ [(qkv_key k, v)])
                  @ map (\<lambda>(k, v). (qkv_key k, v)) (filter (\<lambda>(k, v). is_qkv k) r))"
      by (rule Cons.IH [OF a1 f d a4])
    then show ?thesis using True step by (simp add: p run_handlers_qkv)
  qed
qed

lemma qkv_key_pairs:
  "mset (filter (\<lambda>(k, v). \<not> is_qkv k) r)
     + mset (map (\<lambda>(k, v). (qkv_key k, v)) (filter (\<lambda>(k, v). is_qkv k) r))
     = mset (map (\<lambda>(k, v). (qkv_key k, v)) r)"
  by (induction r) (auto simp: qkv_key_def)

lemma special_pass_fresh:
  assumes "distinct (map fst r)" and "fresh_later qkv_key (map fst r)"
    and "distinct (map (qkv_key \<circ> fst) r)"
  shows "\<exists>d'. special_pass r = Inr d' \<and> mset d' = mset (map (\<lambda>(k, v). (qkv_key k, v)) r)"
proof -
  have "special_loop (map fst r) ([] @ r @ [])
           = Inr ([] @ filter (\<lambda>(k, v). \<not> is_qkv k) r @ []
                  @ map (\<lambda>(k, v). (qkv_key k, v)) (filter (\<lambda>(k, v). is_qkv k) r))"
    using assms by (intro special_loop_fresh) simp_all
  then show ?thesis using qkv_key_pairs [of r] by (simp add: special_pass_def)
qed

lemma distinct_map_comp: "distinct (map (g \<circ> f) xs) \<Longrightarrow> distinct (map f xs)"
  by (induction xs) auto





section \<open>The special-key pass\<close>

text \<open>
  C4. Let a dictionary hold the value \<open>v\<close> under a key in which \<open>qkv.conv.weight\<close> occurs,
  and let the key with \<open>qkv.conv\<close> replaced by \<open>to_qkv\<close> not be a key of the dictionary.
  Then the special-key pass calls \<open>remap_qkv_\<close> on the key, and the call takes the entry
  out and puts one entry in, under the new key and with the value \<open>v\<close>; all other entries
  stay, and the number of entries is the same.
\<close>

theorem remap_qkv_renames_entry:
  assumes "distinct (map fst d)"
    and "map_of d key = Some v"
    and "str_contains ''qkv.conv.weight'' key"
    and "\<not> dict_contains (str_replace key ''qkv.conv'' ''to_qkv'') d"
  shows "\<exists>d'. run_handlers VAE_SPECIAL_KEYS_REMAP key d = Inr d'
           \<and> remap_qkv' key d = Inr d'
           \<and> d' = dict_remove key d @ [(str_replace key ''qkv.conv'' ''to_qkv'', v)]
           \<and> map_of d' (str_replace key ''qkv.conv'' ''to_qkv'') = Some v
           \<and> map_of d' key = None
           \<and> (\<forall>k. k \<noteq> key \<and> k \<noteq> str_replace key ''qkv.conv'' ''to_qkv''
                  \<longrightarrow> map_of d' k = map_of d k)
           \<and> distinct (map fst d')
           \<and> length d' = length d"
proof -
  let ?n = "str_replace key ''qkv.conv'' ''to_qkv''"
  let ?r = "dict_remove key d"
  let ?d' = "?r @ [(?n, v)]"
  have kin: "key \<in> set (map fst d)" using assms(2) by (rule map_of_keys)
  have nin: "?n \<notin> set (map fst d)" using assms(4) by (simp add: dict_contains_def)
  have ne: "?n \<noteq> key" using kin nin by auto
  have keys_r: "map fst ?r = removeAll key (map fst d)"
    using assms(1) by (rule keys_dict_remove)
  have nr: "?n \<notin> fst ` set ?r"
  proof -
    have "?n \<notin> set (map fst ?r)" using nin by (simp add: keys_r)
    then show ?thesis by simp
  qed
  have set: "dict_setitem ?n v ?r = ?d'" using nr by (rule dict_setitem_fresh)
  have remap: "remap_qkv' key d = Inr ?d'"
    using assms(2) set by (simp add: remap_qkv'_def dict_pop_def)
  have run: "run_handlers VAE_SPECIAL_KEYS_REMAP key d = Inr ?d'"
    using assms(3) remap by (simp add: run_handlers_qkv is_qkv_def)
  have m: "map_of ?d' = (map_of d)(key := None, ?n \<mapsto> v)"
    using map_of_dict_setitem [of ?n v ?r] map_of_dict_remove [OF assms(1), of key]
    by (simp only: set)
  have dist: "distinct (map fst ?d')"
    using assms(1) nin by (simp add: keys_r distinct_removeAll)
  have len: "length ?d' = length d" using length_dict_remove [OF kin] by simp
  have m1: "map_of ?d' ?n = Some v" unfolding m by simp
  have m2: "map_of ?d' key = None" unfolding m using ne by simp
  have m3: "\<forall>k. k \<noteq> key \<and> k \<noteq> ?n \<longrightarrow> map_of ?d' k = map_of d k"
    unfolding m by simp
  show ?thesis using remap run m1 m2 m3 dist len by blast
qed

theorem remap_qkv_renames_entry_witness:
  "remap_qkv' ''attn.qkv.conv.weight''
       [(''attn.qkv.conv.weight'', 1::nat), (''attn.proj_out.weight'', 2)]
     = Inr [(''attn.proj_out.weight'', 2), (''attn.to_qkv.weight'', 1)]"
proof -
  let ?d = "[(''attn.qkv.conv.weight'', 1::nat), (''attn.proj_out.weight'', 2)]"
  have a: "distinct (map fst ?d)" by simp
  have b: "map_of ?d ''attn.qkv.conv.weight'' = Some 1" by simp
  have c: "str_contains ''qkv.conv.weight'' ''attn.qkv.conv.weight''" by code_simp
  have r: "str_replace ''attn.qkv.conv.weight'' ''qkv.conv'' ''to_qkv'' = ''attn.to_qkv.weight''"
    by code_simp
  have d: "\<not> dict_contains (str_replace ''attn.qkv.conv.weight'' ''qkv.conv'' ''to_qkv'') ?d"
    by (simp add: r dict_contains_def)
  from remap_qkv_renames_entry [OF a b c d] show ?thesis by (simp add: r)
qed

section \<open>The values of the converted dictionary\<close>

lemma renamed_norm_x: "renamed ''norm.x'' = ''norm.norm.x''"
  by code_simp

lemma renamed_norm_norm_x: "renamed ''norm.norm.x'' = ''norm.norm.norm.norm.x''"
  by code_simp

lemma is_qkv_norm_x: "\<not> is_qkv ''norm.norm.x''" "\<not> is_qkv ''norm.norm.norm.norm.x''"
  by code_simp+

text \<open>
  C10, as the claim states it, fails. The dictionary \<open>{"norm.x": 1, "norm.norm.x": 2}\<close> has
  the renamed keys \<open>norm.norm.x\<close> and \<open>norm.norm.norm.norm.x\<close>, which differ, and they are the
  final keys too. The rename pass stores the first value under \<open>norm.norm.x\<close>, the key of
  the second entry, whose value is gone from then on; the entry is then renamed once more.
  The result holds the value 1 alone.
\<close>

theorem convert_vae_keys_drops_value_counterexample:
  "distinct (map fst [(''norm.x'', 1::nat), (''norm.norm.x'', 2)])
   \<and> distinct (map (renamed \<circ> fst) [(''norm.x'', 1::nat), (''norm.norm.x'', 2)])
   \<and> distinct (map (final_key \<circ> fst) [(''norm.x'', 1::nat), (''norm.norm.x'', 2)])
   \<and> convert_vae_keys [(''norm.x'', 1::nat), (''norm.norm.x'', 2)]
       = Inr [(''norm.norm.norm.norm.x'', 1)]
   \<and> 2 \<notin> set (map snd [(''norm.norm.norm.norm.x'', 1::nat)])"
  by (simp add: final_key_def renamed_norm_x renamed_norm_norm_x is_qkv_norm_x qkv_key_def
      convert_vae_keys_def rename_pass_def update_state_dict'_def dict_pop_def
      special_pass_def run_handlers_qkv)

text \<open>
  The special-key pass can lose a value in the same way: in \<open>{"a.qkv.conv.weight": 1,
  "a.to_qkv.weight": 2}\<close> the rename pass changes no key, and \<open>remap_qkv_\<close> stores the first
  value under the key of the second entry.
\<close>

lemma convert_vae_keys_qkv_collision:
  "renamed ''a.qkv.conv.weight'' = ''a.qkv.conv.weight''
   \<and> renamed ''a.to_qkv.weight'' = ''a.to_qkv.weight''
   \<and> convert_vae_keys [(''a.qkv.conv.weight'', 1::nat), (''a.to_qkv.weight'', 2)]
       = Inr [(''a.to_qkv.weight'', 1)]"
proof -
  have a: "renamed ''a.qkv.conv.weight'' = ''a.qkv.conv.weight''" by code_simp
  have b: "renamed ''a.to_qkv.weight'' = ''a.to_qkv.weight''" by code_simp
  have q: "is_qkv ''a.qkv.conv.weight''" "\<not> is_qkv ''a.to_qkv.weight''" by code_simp+
  have r: "str_replace ''a.qkv.conv.weight'' ''qkv.conv'' ''to_qkv'' = ''a.to_qkv.weight''"
    by code_simp
  show ?thesis
    by (simp add: a b q r convert_vae_keys_def rename_pass_def update_state_dict'_def
        dict_pop_def special_pass_def run_handlers_qkv remap_qkv'_def)
qed

text \<open>
  C10, amended. Let the final keys of a dictionary be pairwise distinct, let no renamed key
  be a key that the rename pass has yet to visit, and let no key that the special-key pass
  stores be a key that this pass has yet to visit. Then the two passes succeed, the
  result holds the entries of the input under their final keys, each once, its values are
  the values of the input, each as often as there, and its keys are pairwise distinct.
\<close>

theorem convert_vae_keys_keeps_values:
  assumes "distinct (map (final_key \<circ> fst) d)"
    and "fresh_later renamed (map fst d)"
    and "fresh_later qkv_key (map (renamed \<circ> fst) d)"
  shows "\<exists>d'. convert_vae_keys d = Inr d'
           \<and> mset d' = mset (map (\<lambda>(k, v). (final_key k, v)) d)
           \<and> mset (map snd d') = mset (map snd d)
           \<and> distinct (map fst d')"
proof -
  let ?r = "map (\<lambda>(k, v). (renamed k, v)) d"
  have fk: "final_key \<circ> fst = qkv_key \<circ> (renamed \<circ> fst)"
    by (simp add: fun_eq_iff final_key_def)
  have dr: "distinct (map (renamed \<circ> fst) d)"
    using assms(1) unfolding fk by (rule distinct_map_comp)
  have ren: "rename_pass d = Inr ?r" using dr assms(2) by (rule rename_pass_fresh)
  have keys_r: "map fst ?r = map (renamed \<circ> fst) d" by (simp add: comp_def split_def)
  have keys_q: "map (qkv_key \<circ> fst) ?r = map (final_key \<circ> fst) d"
    by (simp add: comp_def split_def final_key_def)
  obtain d' where sp: "special_pass ?r = Inr d'"
    and ms: "mset d' = mset (map (\<lambda>(k, v). (qkv_key k, v)) ?r)"
    using special_pass_fresh [of ?r] dr assms(1,3) by (auto simp only: keys_r keys_q)
  have pairs: "map (\<lambda>(k, v). (qkv_key k, v)) ?r = map (\<lambda>(k, v). (final_key k, v)) d"
    by (simp add: split_def final_key_def)
  have ms': "mset d' = mset (map (\<lambda>(k, v). (final_key k, v)) d)" using ms by (simp only: pairs)
  have "mset (map snd d') = image_mset snd (mset (map (\<lambda>(k, v). (final_key k, v)) d))"
    using ms' by (metis mset_map)
  then have vals: "mset (map snd d') = mset (map snd d)"
    by (simp add: split_def comp_def multiset.map_comp)
  have "mset (map fst d') = image_mset fst (mset (map (\<lambda>(k, v). (final_key k, v)) d))"
    using ms' by (metis mset_map)
  then have "mset (map fst d') = mset (map (final_key \<circ> fst) d)"
    by (simp add: split_def comp_def multiset.map_comp)
  then have dist: "distinct (map fst d')"
    using assms(1) mset_eq_imp_distinct_iff [of "map fst d'" "map (final_key \<circ> fst) d"]
    by blast
  show ?thesis using ren sp ms' vals dist by (simp add: convert_vae_keys_def)
qed

lemma renamed_qkv_weight: "renamed ''attn.qkv.conv.weight'' = ''attn.qkv.conv.weight''"
  by code_simp

lemma qkv_key_examples:
  "qkv_key ''attn.qkv.conv.weight'' = ''attn.to_qkv.weight''"
  "qkv_key ''encoder.conv_in.weight'' = ''encoder.conv_in.weight''"
  by code_simp+

theorem convert_vae_keys_keeps_values_witness:
  "\<exists>d'. convert_vae_keys [(''attn.qkv.conv.weight'', 1::nat),
                           (''encoder.project_in.conv.weight'', 2)] = Inr d'
     \<and> mset d' = {#(''attn.to_qkv.weight'', 1), (''encoder.conv_in.weight'', 2)#}
     \<and> mset (map snd d') = {#1, 2#}
     \<and> distinct (map fst d')"
proof -
  let ?d = "[(''attn.qkv.conv.weight'', 1::nat), (''encoder.project_in.conv.weight'', 2)]"
  have a: "distinct (map (final_key \<circ> fst) ?d)"
    by (simp add: final_key_def renamed_qkv_weight renamed_project_in qkv_key_examples)
  have b: "fresh_later renamed (map fst ?d)"
    by (simp add: renamed_qkv_weight renamed_project_in)
  have c: "fresh_later qkv_key (map (renamed \<circ> fst) ?d)"
    by (simp add: renamed_qkv_weight renamed_project_in qkv_key_examples)
  from convert_vae_keys_keeps_values [OF a b c] show ?thesis
    by (simp add: final_key_def renamed_qkv_weight renamed_project_in qkv_key_examples)
qed

section \<open>The presets of \<open>get_vae_config\<close>\<close>

text \<open>
  C9. For each of the seven preset names \<open>get_vae_config\<close> returns a configuration; for
  every other name it fails at the \<open>return\<close>, where \<open>config\<close> is unbound.
\<close>

theorem get_vae_config_presets:
  "(name \<in> set vae_presets \<longrightarrow> (\<exists>config. get_vae_config name = Inr config))
   \<and> (name \<notin> set vae_presets \<longrightarrow> get_vae_config name = Inl (UnboundLocalError ''config''))"
  by (simp add: get_vae_config_def vae_presets_def)

theorem get_vae_config_presets_witness:
  "''dc-ae-f64c128-mix-1.0'' \<in> set vae_presets
   \<and> (\<exists>config. get_vae_config ''dc-ae-f64c128-mix-1.0'' = Inr config)
   \<and> ''dc-ae-f32c32-1.0'' \<notin> set vae_presets
   \<and> get_vae_config ''dc-ae-f32c32-1.0'' = Inl (UnboundLocalError ''config'')"
proof -
  have a: "''dc-ae-f64c128-mix-1.0'' \<in> set vae_presets" by (simp add: vae_presets_def)
  have b: "''dc-ae-f32c32-1.0'' \<notin> set vae_presets" by (simp add: vae_presets_def)
  from a b get_vae_config_presets [of "''dc-ae-f64c128-mix-1.0''"]
    get_vae_config_presets [of "''dc-ae-f32c32-1.0''"]
  show ?thesis by blast
qed

section \<open>Rounding to a floating-point type\<close>

lemma bit_length_pos: "0 < n \<Longrightarrow> bit_length n = Suc (bit_length (n div 2))"
  by (subst bit_length.simps) simp

lemma bit_length_bounds: "0 < n \<Longrightarrow> 2 ^ (bit_length n - 1) \<le> n \<and> n < 2 ^ bit_length n"
proof (induction n rule: less_induct)
  case (less n)
  have bl: "bit_length n = Suc (bit_length (n div 2))" using less.prems by (rule bit_length_pos)
  show ?case
  proof (cases "n div 2 = 0")
    case True
    then have n1: "n = 1" using less.prems by (simp add: div_eq_0_iff)
    have "bit_length (n div 2) = 0" using True by (subst bit_length.simps) simp
    then show ?thesis using bl n1 by simp
  next
    case False
    then have h: "0 < n div 2" by simp
    have lt: "n div 2 < n" using less.prems by simp
    have ih: "2 ^ (bit_length (n div 2) - 1) \<le> n div 2 \<and> n div 2 < 2 ^ bit_length (n div 2)"
      using less.IH [OF lt h] .
    obtain k where k: "bit_length (n div 2) = Suc k" using bit_length_pos [OF h] by blast
    have a: "2 ^ k \<le> n div 2" using ih k by simp
    have b: "n div 2 < 2 ^ Suc k" using ih k by simp
    have "2 * 2 ^ k \<le> n" using a by linarith
    moreover have "n < 2 * 2 ^ Suc k" using b by linarith
    ultimately show ?thesis using bl k by simp
  qed
qed

text \<open>\<open>ilog2\<close> is the binary exponent.\<close>

lemma ilog2_bounds:
  assumes "x \<noteq> 0"
  shows "2 powi (ilog2 x) \<le> \<bar>x\<bar> \<and> \<bar>x\<bar> < 2 powi (ilog2 x + 1)"
proof (cases "1 \<le> \<bar>x\<bar>")
  case True
  define n where "n = nat \<lfloor>\<bar>x\<bar>\<rfloor>"
  have npos: "0 < n" using True by (simp add: n_def)
  obtain k where k: "bit_length n = Suc k" using bit_length_pos [OF npos] by blast
  have e: "ilog2 x = int k" using True k by (simp add: ilog2_def n_def)
  have b: "2 ^ k \<le> n \<and> n < 2 ^ Suc k" using bit_length_bounds [OF npos] k by simp
  have "real n \<le> \<bar>x\<bar>" using True by (simp add: n_def)
  moreover have "\<bar>x\<bar> < real n + 1" using True by (simp add: n_def)
  moreover have "(2::real) ^ k \<le> real n"
    using b by (metis of_nat_le_iff of_nat_numeral of_nat_power)
  moreover have "real n + 1 \<le> 2 ^ Suc k"
  proof -
    have "Suc n \<le> 2 ^ Suc k" using b by simp
    then have "real (Suc n) \<le> real (2 ^ Suc k)" by (rule iffD2 [OF of_nat_le_iff])
    then show ?thesis by simp
  qed
  ultimately have "(2::real) ^ k \<le> \<bar>x\<bar> \<and> \<bar>x\<bar> < 2 ^ Suc k" by linarith
  then show ?thesis by (simp add: e power_int_add)
next
  case False
  define y where "y = 1 / \<bar>x\<bar>"
  have xpos: "0 < \<bar>x\<bar>" using assms by simp
  have y1: "1 < y" using False xpos by (simp add: y_def)
  define m where "m = nat (\<lceil>y\<rceil> - 1)"
  have c2: "2 \<le> \<lceil>y\<rceil>" using y1 by linarith
  have mpos: "0 < m" using c2 by (simp add: m_def)
  have mc: "int m = \<lceil>y\<rceil> - 1" using c2 by (simp add: m_def)
  obtain k where k: "bit_length m = Suc k" using bit_length_pos [OF mpos] by blast
  have e: "ilog2 x = - int (Suc k)" using False k by (simp add: ilog2_def m_def y_def)
  have b: "2 ^ k \<le> m \<and> m < 2 ^ Suc k" using bit_length_bounds [OF mpos] k by simp
  have up: "y \<le> 2 ^ Suc k"
  proof -
    have "int m + 1 \<le> 2 ^ Suc k"
      using b
      by (metis Suc_leI of_nat_Suc of_nat_le_iff of_nat_numeral of_nat_power add.commute)
    then have "\<lceil>y\<rceil> \<le> 2 ^ Suc k" using mc by simp
    then have "y \<le> real_of_int (2 ^ Suc k)" by (simp only: ceiling_le_iff)
    then show ?thesis by simp
  qed
  have lo: "2 ^ k < y"
  proof -
    have "(2::int) ^ k \<le> int m" using b by (metis of_nat_le_iff of_nat_numeral of_nat_power)
    then have "(2::int) ^ k < \<lceil>y\<rceil>" using mc by simp
    then have "real_of_int (2 ^ k) < y" by (simp only: less_ceiling_iff)
    then show ?thesis by simp
  qed
  have p1: "(2::real) powi (- int (Suc k)) = 1 / 2 ^ Suc k"
    by (simp only: power_int_minus power_int_of_nat inverse_eq_divide)
  have "- int (Suc k) + 1 = - int k" by simp
  then have p2: "(2::real) powi (- int (Suc k) + 1) = 1 / 2 ^ k"
    by (simp only: power_int_minus power_int_of_nat inverse_eq_divide)
  have "1 / 2 ^ Suc k \<le> \<bar>x\<bar>"
    using up xpos by (simp add: y_def field_simps)
  moreover have "\<bar>x\<bar> < 1 / 2 ^ k"
    using lo xpos by (simp add: y_def field_simps)
  ultimately show ?thesis by (simp only: e p1 p2)
qed

text \<open>The rounded integer is at most one half away.\<close>

lemma round_half_even_near: "\<bar>of_int (round_half_even x) - x\<bar> \<le> 1 / 2"
  by (simp add: round_half_even_def Let_def)

lemma ilog2_one: "ilog2 1 = 0"
  by (simp add: ilog2_def bit_length.simps)

lemma ilog2_10000: "ilog2 (- 10000) = 13"
  by (simp add: ilog2_def bit_length.simps)

lemma round_float_zero: "round_float dt 0 = Fin 0"
  by (simp add: round_float_def)

lemma round_float_one: "round_float dt 1 = Fin 1"
  by (cases dt)
    (simp_all add: round_float_def ilog2_one round_half_even_def power_int_def Let_def
      power_divide)

lemma round_float_10000:
  "round_float dt (- 10000) = (if dt = BFloat16 then Fin (- 9984) else Fin (- 10000))"
  by (cases dt)
    (simp_all add: round_float_def ilog2_10000 round_half_even_def power_int_def Let_def
      power_divide)

text \<open>Some more values: the largest number of \<open>float16\<close> is 65504, and 65520 rounds to
  infinity; a third is rounded to eleven and to eight digits.\<close>

lemma round_float_examples:
  "round_float Float16 65519 = Fin 65504"
  "round_float Float16 65520 = PosInf"
  "round_float Float16 (1 / 3) = Fin (1365 / 4096)"
  "round_float BFloat16 (1 / 3) = Fin (171 / 512)"
  by (simp_all add: round_float_def ilog2_def bit_length.simps round_half_even_def
      power_int_def Let_def power_divide)

section \<open>The attention masks of the model's forward pass\<close>

lemma bias_elem_keep: "mul_elem dt (rsub_elem dt 1 (cast dt (Fin 1))) (- 10000) = Fin 0"
  by (simp add: round_float_one round_float_zero)

lemma bias_elem_discard:
  "mul_elem dt (rsub_elem dt 1 (cast dt (Fin 0))) (- 10000)
     = (if dt = BFloat16 then Fin (- 9984) else Fin (- 10000))"
  by (simp add: round_float_one round_float_zero round_float_10000)

lemma bias_elems:
  "set xs \<subseteq> {Fin 0, Fin 1} \<Longrightarrow>
     map (\<lambda>v. mul_elem dt (rsub_elem dt 1 (cast dt v)) (- 10000)) xs
       = map (\<lambda>v. if v = Fin 1 then Fin 0
                   else if dt = BFloat16 then Fin (- 9984) else Fin (- 10000)) xs"
proof (induction xs)
  case Nil
  then show ?case by simp
next
  case (Cons x xs)
  then have "x = Fin 0 \<or> x = Fin 1" by simp
  then show ?case using Cons bias_elem_keep [of dt] bias_elem_discard [of dt] by auto
qed

lemma mask_to_bias_shape:
  "shape m = [b, k] \<Longrightarrow>
     mask_to_bias dt (Some m)
       = Inr (Some \<lparr>shape = [b, 1, k],
                     elems = map (\<lambda>v. mul_elem dt (rsub_elem dt 1 (cast dt v)) (- 10000))
                               (elems m)\<rparr>)"
  by (simp add: mask_to_bias_def ndim_def unsqueeze_def mul_scalar_def rsub_scalar_def
      to_dtype_def comp_def)

lemma mask_to_bias_total: "\<exists>b. mask_to_bias dt m = Inr b"
  by (cases m) (simp_all add: mask_to_bias_def unsqueeze_def ndim_def mul_scalar_def
      rsub_scalar_def to_dtype_def)

text \<open>
  C8, as the claim states it, fails for a model in \<open>bfloat16\<close>, which has eight binary
  digits: the product \<open>1 * -10000.0\<close> is rounded to \<open>-9984.0\<close>, and that is what a discard
  entry becomes.
\<close>

theorem mask_to_bias_bfloat16_counterexample:
  "mask_to_bias BFloat16 (Some \<lparr>shape = [1, 2], elems = [Fin 1, Fin 0]\<rparr>)
     = Inr (Some \<lparr>shape = [1, 1, 2], elems = [Fin 0, Fin (- 9984)]\<rparr>)
   \<and> Fin (- 9984) \<noteq> Fin (- 10000)"
proof -
  have "shape \<lparr>shape = [1, 2], elems = [Fin 1, Fin 0]\<rparr> = [1, 2]" by simp
  from mask_to_bias_shape [OF this, of BFloat16] show ?thesis
    using bias_elem_keep [of BFloat16] bias_elem_discard [of BFloat16] by simp
qed

text \<open>
  C8, amended. A mask is made a bias exactly when it has two dimensions. A mask of shape
  \<open>[b, k]\<close> becomes the tensor of shape \<open>[b, 1, k]\<close> whose elements are
  \<open>(1 - x.to(dtype)) * -10000.0\<close> in the arithmetic of \<open>hidden_states.dtype\<close>: for a mask
  of zeros and ones that is 0 where the mask has 1, and where it has 0 it is
  \<open>-10000.0\<close> rounded to the type, which is \<open>-10000.0\<close> in \<open>float64\<close>, \<open>float32\<close> and
  \<open>float16\<close> and \<open>-9984.0\<close> in \<open>bfloat16\<close>. A mask of another rank and an absent mask stay
  as they are. \<open>forward\<close> does this to both of its masks, and never fails in doing it.
\<close>

theorem mask_to_bias_two_dimensional:
  "(\<forall>b k. shape m = [b, k] \<longrightarrow>
      mask_to_bias dt (Some m)
        = Inr (Some \<lparr>shape = [b, 1, k],
                      elems = map (\<lambda>v. mul_elem dt (rsub_elem dt 1 (cast dt v)) (- 10000))
                                (elems m)\<rparr>))
   \<and> (\<forall>b k. shape m = [b, k] \<and> set (elems m) \<subseteq> {Fin 0, Fin 1} \<longrightarrow>
      mask_to_bias dt (Some m)
        = Inr (Some \<lparr>shape = [b, 1, k],
                      elems = map (\<lambda>v. if v = Fin 1 then Fin 0
                                        else if dt = BFloat16 then Fin (- 9984)
                                        else Fin (- 10000)) (elems m)\<rparr>))
   \<and> round_float dt (- 10000) = (if dt = BFloat16 then Fin (- 9984) else Fin (- 10000))
   \<and> (ndim m = 2 \<longleftrightarrow> (\<exists>b k. shape m = [b, k]))
   \<and> (ndim m \<noteq> 2 \<longrightarrow> mask_to_bias dt (Some m) = Inr (Some m))
   \<and> mask_to_bias dt None = Inr None
   \<and> (\<exists>a e. mask_to_bias dt attention_mask = Inr a
         \<and> mask_to_bias dt encoder_attention_mask = Inr e
         \<and> forward_masks dt encoder_attention_mask attention_mask = Inr (a, e))"
proof (intro conjI allI impI)
  fix b k
  assume "shape m = [b, k]"
  then show "mask_to_bias dt (Some m)
        = Inr (Some \<lparr>shape = [b, 1, k],
                      elems = map (\<lambda>v. mul_elem dt (rsub_elem dt 1 (cast dt v)) (- 10000))
                                (elems m)\<rparr>)"
    by (rule mask_to_bias_shape)
next
  fix b k
  assume s: "shape m = [b, k] \<and> set (elems m) \<subseteq> {Fin 0, Fin 1}"
  then have sh: "shape m = [b, k]" by (rule conjunct1)
  from s have "set (elems m) \<subseteq> {Fin 0, Fin 1}" by (rule conjunct2)
  then have "map (\<lambda>v. mul_elem dt (rsub_elem dt 1 (cast dt v)) (- 10000)) (elems m)
       = map (\<lambda>v. if v = Fin 1 then Fin 0
                   else if dt = BFloat16 then Fin (- 9984) else Fin (- 10000)) (elems m)"
    by (rule bias_elems)
  then show "mask_to_bias dt (Some m)
        = Inr (Some \<lparr>shape = [b, 1, k],
                      elems = map (\<lambda>v. if v = Fin 1 then Fin 0
                                        else if dt = BFloat16 then Fin (- 9984)
                                        else Fin (- 10000)) (elems m)\<rparr>)"
    using mask_to_bias_shape [OF sh, of dt] by simp
next
  show "round_float dt (- 10000) = (if dt = BFloat16 then Fin (- 9984) else Fin (- 10000))"
    by (rule round_float_10000)
next
  show "ndim m = 2 \<longleftrightarrow> (\<exists>b k. shape m = [b, k])"
  proof
    assume "ndim m = 2"
    then have "length (shape m) = Suc (Suc 0)" by (simp add: ndim_def)
    then show "\<exists>b k. shape m = [b, k]" by (auto simp: length_Suc_conv)
  next
    assume "\<exists>b k. shape m = [b, k]"
    then show "ndim m = 2" by (auto simp: ndim_def)
  qed
next
  assume "ndim m \<noteq> 2"
  then show "mask_to_bias dt (Some m) = Inr (Some m)" by (simp add: mask_to_bias_def)
next
  show "mask_to_bias dt None = Inr None" by (simp add: mask_to_bias_def)
next
  obtain a where a: "mask_to_bias dt attention_mask = Inr a"
    using mask_to_bias_total by blast
  obtain e where e: "mask_to_bias dt encoder_attention_mask = Inr e"
    using mask_to_bias_total by blast
  show "\<exists>a e. mask_to_bias dt attention_mask = Inr a
         \<and> mask_to_bias dt encoder_attention_mask = Inr e
         \<and> forward_masks dt encoder_attention_mask attention_mask = Inr (a, e)"
    using a e by (simp add: forward_masks_def)
qed

theorem mask_to_bias_two_dimensional_witness:
  "mask_to_bias Float16 (Some \<lparr>shape = [1, 3], elems = [Fin 1, Fin 0, Fin 1]\<rparr>)
     = Inr (Some \<lparr>shape = [1, 1, 3], elems = [Fin 0, Fin (- 10000), Fin 0]\<rparr>)
   \<and> mask_to_bias Float16 (Some \<lparr>shape = [1, 1, 3], elems = [Fin 0, Fin (- 10000), Fin 0]\<rparr>)
     = Inr (Some \<lparr>shape = [1, 1, 3], elems = [Fin 0, Fin (- 10000), Fin 0]\<rparr>)"
proof -
  let ?m = "\<lparr>shape = [1, 3], elems = [Fin 1, Fin 0, Fin 1]\<rparr>"
  let ?b = "\<lparr>shape = [1, 1, 3], elems = [Fin 0, Fin (- 10000), Fin 0]\<rparr>"
  have two: "shape ?m = [1, 3] \<and> set (elems ?m) \<subseteq> {Fin 0, Fin 1}" by simp
  have three: "ndim ?b \<noteq> 2" by (simp add: ndim_def)
  note t1 = mask_to_bias_two_dimensional [where m = ?m and dt = Float16
      and attention_mask = None and encoder_attention_mask = None]
  note t2 = mask_to_bias_two_dimensional [where m = ?b and dt = Float16
      and attention_mask = None and encoder_attention_mask = None]
  from t1 [THEN conjunct2, THEN conjunct1] two
  have "mask_to_bias Float16 (Some ?m) = Inr (Some ?b)" by simp
  moreover from t2 [THEN conjunct2, THEN conjunct2, THEN conjunct2, THEN conjunct2,
      THEN conjunct1] three
  have "mask_to_bias Float16 (Some ?b) = Inr (Some ?b)" by blast
  ultimately show ?thesis by (rule conjI)
qed

section \<open>The gates of the transformer block\<close>

text \<open>
  C7. When the gate of a gated branch is zero, at a sample and a channel, the residual
  stream after the branch is the one before it there, at every token: for the
  self-attention branch the gate is chunk 2 of the modulation, for the feed-forward
  branch it is chunk 5. With a gate that is zero everywhere the branch returns its
  input; with both gates zero the block returns what the cross-attention leaves, which
  is \<open>attn2(hidden_states) + hidden_states\<close>, or \<open>hidden_states\<close> when \<open>attn2\<close> holds \<open>None\<close>.
  On the real numbers every output of a module is finite, which is what the claim
  assumes of the floating-point numbers: there the product of zero and a finite number
  is a zero, and adding a zero changes no number.
\<close>

theorem zero_gate_keeps_residual:
  "(modulation self timestep 2 b d = 0 \<longrightarrow>
      self_attention self hidden_states timestep b n d = hidden_states b n d)
   \<and> (modulation self timestep 5 b d = 0 \<longrightarrow>
      feed_forward self norm2_fn hidden_states timestep HW b n d = hidden_states b n d)
   \<and> ((\<forall>b d. modulation self timestep 2 b d = 0) \<longrightarrow>
      self_attention self hidden_states timestep = hidden_states)
   \<and> ((\<forall>b d. modulation self timestep 5 b d = 0) \<longrightarrow>
      feed_forward self norm2_fn hidden_states timestep HW = hidden_states)
   \<and> ((\<forall>b d. modulation self timestep 2 b d = 0) \<and> (\<forall>b d. modulation self timestep 5 b d = 0)
        \<and> attn2 self = Attr attn2_value \<and> norm2 self = Attr (Some norm2_fn) \<longrightarrow>
      block_forward self hidden_states enc msk timestep HW
        = Inr (cross_attention attn2_value hidden_states enc msk))
   \<and> cross_attention None hidden_states enc msk = hidden_states
   \<and> cross_attention (Some attn2_fn) hidden_states enc msk
       = (\<lambda>b n d. attn2_fn hidden_states enc msk b n d + hidden_states b n d)"
proof -
  have a: "self_attention self hidden_states timestep = hidden_states"
    if "\<forall>b d. modulation self timestep 2 b d = 0"
    using that by (simp add: self_attention_def gated_add_def Let_def)
  have f: "feed_forward self norm2_fn hs timestep HW = hs"
    if "\<forall>b d. modulation self timestep 5 b d = 0" for hs
    using that by (simp add: feed_forward_def gated_add_def Let_def)
  have a1: "self_attention self hidden_states timestep b n d = hidden_states b n d"
    if "modulation self timestep 2 b d = 0"
    using that by (simp add: self_attention_def gated_add_def Let_def)
  have f1: "feed_forward self norm2_fn hidden_states timestep HW b n d = hidden_states b n d"
    if "modulation self timestep 5 b d = 0"
    using that by (simp add: feed_forward_def gated_add_def Let_def)
  have blk: "block_forward self hidden_states enc msk timestep HW
        = Inr (cross_attention attn2_value hidden_states enc msk)"
    if "(\<forall>b d. modulation self timestep 2 b d = 0) \<and> (\<forall>b d. modulation self timestep 5 b d = 0)
        \<and> attn2 self = Attr attn2_value \<and> norm2 self = Attr (Some norm2_fn)"
    using that a f by (simp add: block_forward_def Let_def)
  have c1: "cross_attention None hidden_states enc msk = hidden_states"
    by (simp add: cross_attention_def)
  have c2: "cross_attention (Some attn2_fn) hidden_states enc msk
       = (\<lambda>b n d. attn2_fn hidden_states enc msk b n d + hidden_states b n d)"
    by (simp add: cross_attention_def Let_def)
  show ?thesis using a f a1 f1 blk c1 c2 by blast
qed

theorem zero_gate_keeps_residual_witness:
  "block_forward
     \<lparr>channels = 2,
      scale_shift_table = (\<lambda>i d. if i = 2 \<or> i = 5 then 0 else 1),
      norm1 = (\<lambda>t. t), attn1 = (\<lambda>t b n d. t b n d + 7),
      norm2 = Attr (Some (\<lambda>t. t)), attn2 = Attr (Some (\<lambda>t (e::unit) (m::unit) b n d. 3)),
      ff = (\<lambda>t hw b n d. 5)\<rparr>
     (\<lambda>b n d. 1) () () (\<lambda>b j. 0) None
   = Inr (\<lambda>b n d. 4)"
proof -
  let ?blk = "\<lparr>channels = 2,
      scale_shift_table = (\<lambda>i d. if i = 2 \<or> i = 5 then 0 else (1::real)),
      norm1 = (\<lambda>t. t), attn1 = (\<lambda>t b n d. t b n d + 7),
      norm2 = Attr (Some (\<lambda>t. t)),
      attn2 = Attr (Some (\<lambda>t (e::unit) (m::unit) b n d. (3::real))),
      ff = (\<lambda>t hw b n d. (5::real))\<rparr>"
  have g: "(\<forall>b d. modulation ?blk (\<lambda>b j. 0) 2 b d = 0)
     \<and> (\<forall>b d. modulation ?blk (\<lambda>b j. 0) 5 b d = 0)
     \<and> attn2 ?blk = Attr (Some (\<lambda>t e m b n d. 3)) \<and> norm2 ?blk = Attr (Some (\<lambda>t. t))"
    by (simp add: modulation_def)
  note t = zero_gate_keeps_residual [where self = ?blk and timestep = "\<lambda>b j. 0"
      and norm2_fn = "\<lambda>t. t" and attn2_value = "Some (\<lambda>t e m b n d. 3)"
      and attn2_fn = "\<lambda>t e m b n d. 3" and enc = "()" and msk = "()"
      and hidden_states = "\<lambda>b n d. 1" and HW = None and b = 0 and d = 0 and n = 0]
  note c = t [THEN conjunct2, THEN conjunct2, THEN conjunct2, THEN conjunct2, THEN conjunct1]
  from c g show ?thesis by (simp add: cross_attention_def)
qed

end
